theory Spec2Isabelle
  imports Main "HOL-Library.Word"
begin

section \<open>JavaScript strings\<close>

text \<open>
  A JavaScript string is a sequence of 16-bit code units. The emptiness test
  \<^verbatim>\<open>!s\<close> of the source is \<open>s = []\<close>. Literals of the source are written with
  \<open>js\<close>, which maps each character of an Isabelle literal to its code unit.
\<close>

type_synonym jsstring = "16 word list"

definition js :: "string \<Rightarrow> jsstring" where
  "js s = map (\<lambda>c. of_nat (of_char c)) s"

section \<open>JSON text: the platform's \<^verbatim>\<open>JSON.stringify\<close> and \<open>JSON.parse\<close>\<close>

text \<open>
  \<^verbatim>\<open>JSON.parse\<close> yields a JSON value or throws \<^verbatim>\<open>SyntaxError\<close>. A number is kept
  as the lexeme that was read, where the platform holds its double value (the
  texts \<^verbatim>\<open>1.5\<close> and \<^verbatim>\<open>1.50\<close> are one number there and two values here); no
  property below depends on the value of a number. An object is its list of own properties in creation order; a
  repeated member name overwrites the earlier value in place (\<open>obj_put\<close>).
\<close>

datatype json =
    JNull
  | JBool bool
  | JNumber jsstring
  | JString jsstring
  | JArray "json list"
  | JObject "(jsstring \<times> json) list"

datatype error = SyntaxError | TypeError | Rejected | IllTypedState

subsection \<open>Quoting a string (\<^verbatim>\<open>QuoteJSONString\<close> of ECMA-262)\<close>

definition hexdigit :: "nat \<Rightarrow> 16 word" where
  "hexdigit n = (if n < 10 then of_nat (48 + n) else of_nat (87 + n))"

definition UnicodeEscape :: "16 word \<Rightarrow> jsstring" where
  "UnicodeEscape c =
     (let n = unat c in
      [0x5C, 0x75, hexdigit (n div 4096 mod 16), hexdigit (n div 256 mod 16),
       hexdigit (n div 16 mod 16), hexdigit (n mod 16)])"

definition is_leading_surrogate :: "16 word \<Rightarrow> bool" where
  "is_leading_surrogate c = (0xD800 \<le> c \<and> c \<le> 0xDBFF)"

definition is_trailing_surrogate :: "16 word \<Rightarrow> bool" where
  "is_trailing_surrogate c = (0xDC00 \<le> c \<and> c \<le> 0xDFFF)"

text \<open>
  One code unit that is not part of a surrogate pair: the two-character escapes
  for backspace, tab, line feed, form feed, carriage return, the double quote
  and the backslash; a four-digit escape for the other control characters and
  for a lone surrogate; every other unit as it is.
\<close>

definition quote_unit :: "16 word \<Rightarrow> jsstring" where
  "quote_unit c =
     (if c = 0x08 then [0x5C, 0x62]
      else if c = 0x09 then [0x5C, 0x74]
      else if c = 0x0A then [0x5C, 0x6E]
      else if c = 0x0C then [0x5C, 0x66]
      else if c = 0x0D then [0x5C, 0x72]
      else if c = 0x22 then [0x5C, 0x22]
      else if c = 0x5C then [0x5C, 0x5C]
      else if c < 0x20 \<or> is_leading_surrogate c \<or> is_trailing_surrogate c
        then UnicodeEscape c
      else [c])"

fun quote_units :: "jsstring \<Rightarrow> jsstring" where
  "quote_units [] = []"
| "quote_units [c] = quote_unit c"
| "quote_units (c # d # cs) =
     (if is_leading_surrogate c \<and> is_trailing_surrogate d then c # d # quote_units cs
      else quote_unit c @ quote_units (d # cs))"

definition QuoteJSONString :: "jsstring \<Rightarrow> jsstring" where
  "QuoteJSONString s = [0x22] @ quote_units s @ [0x22]"

subsection \<open>Reading JSON text\<close>

definition is_ws :: "16 word \<Rightarrow> bool" where
  "is_ws c = (c = 0x20 \<or> c = 0x09 \<or> c = 0x0A \<or> c = 0x0D)"

fun skip_ws :: "jsstring \<Rightarrow> jsstring" where
  "skip_ws [] = []"
| "skip_ws (c # cs) = (if is_ws c then skip_ws cs else c # cs)"

definition hexval :: "16 word \<Rightarrow> nat option" where
  "hexval c =
     (let v = unat c in
      if 48 \<le> v \<and> v \<le> 57 then Some (v - 48)
      else if 97 \<le> v \<and> v \<le> 102 then Some (v - 87)
      else if 65 \<le> v \<and> v \<le> 70 then Some (v - 55)
      else None)"

definition hex4 :: "16 word \<Rightarrow> 16 word \<Rightarrow> 16 word \<Rightarrow> 16 word \<Rightarrow> 16 word option" where
  "hex4 a b c d =
     (case (hexval a, hexval b, hexval c, hexval d) of
        (Some x, Some y, Some z, Some w) \<Rightarrow> Some (of_nat (4096 * x + 256 * y + 16 * z + w))
      | _ \<Rightarrow> None)"

definition unescape :: "16 word \<Rightarrow> 16 word option" where
  "unescape e =
     (if e = 0x22 then Some 0x22
      else if e = 0x5C then Some 0x5C
      else if e = 0x2F then Some 0x2F
      else if e = 0x62 then Some 0x08
      else if e = 0x66 then Some 0x0C
      else if e = 0x6E then Some 0x0A
      else if e = 0x72 then Some 0x0D
      else if e = 0x74 then Some 0x09
      else None)"

text \<open>
  The characters of a string literal, after its opening quote, up to and
  including the closing quote: the string read and the rest of the input.
\<close>

fun parse_chars :: "jsstring \<Rightarrow> (jsstring \<times> jsstring) option" where
  "parse_chars [] = None"
| "parse_chars (c # cs) =
     (if c = 0x22 then Some ([], cs)
      else if c = 0x5C then
        (case cs of
           [] \<Rightarrow> None
         | e # es \<Rightarrow>
             if e = 0x75 then
               (case es of
                  h1 # h2 # h3 # h4 # r \<Rightarrow>
                    (case hex4 h1 h2 h3 h4 of
                       None \<Rightarrow> None
                     | Some u \<Rightarrow> map_option (\<lambda>(s, r'). (u # s, r')) (parse_chars r))
                | _ \<Rightarrow> None)
             else
               (case unescape e of
                  None \<Rightarrow> None
                | Some u \<Rightarrow> map_option (\<lambda>(s, r'). (u # s, r')) (parse_chars es)))
      else if c < 0x20 then None
      else map_option (\<lambda>(s, r'). (c # s, r')) (parse_chars cs))"

lemma parse_chars_length: "parse_chars s = Some (x, r) \<Longrightarrow> length r < length s"
proof (induction s arbitrary: x r rule: parse_chars.induct)
  case 1
  then show ?case by simp
next
  case (2 c cs)
  then show ?case
    by (fastforce split: if_splits list.splits option.splits)
qed

definition is_digit :: "16 word \<Rightarrow> bool" where
  "is_digit c = (0x30 \<le> c \<and> c \<le> 0x39)"

definition parse_int :: "jsstring \<Rightarrow> (jsstring \<times> jsstring) option" where
  "parse_int s =
     (case s of
        [] \<Rightarrow> None
      | c # cs \<Rightarrow>
          if c = 0x30 then Some ([c], cs)
          else if is_digit c then Some (c # takeWhile is_digit cs, dropWhile is_digit cs)
          else None)"

definition parse_digits1 :: "jsstring \<Rightarrow> (jsstring \<times> jsstring) option" where
  "parse_digits1 s =
     (if takeWhile is_digit s = [] then None
      else Some (takeWhile is_digit s, dropWhile is_digit s))"

definition parse_frac :: "jsstring \<Rightarrow> (jsstring \<times> jsstring) option" where
  "parse_frac s =
     (case s of
        c # cs \<Rightarrow>
          if c = 0x2E then map_option (\<lambda>(ds, r). (c # ds, r)) (parse_digits1 cs)
          else Some ([], s)
      | [] \<Rightarrow> Some ([], s))"

definition parse_exp :: "jsstring \<Rightarrow> (jsstring \<times> jsstring) option" where
  "parse_exp s =
     (case s of
        c # cs \<Rightarrow>
          if c = 0x65 \<or> c = 0x45 then
            (case cs of
               d # ds \<Rightarrow>
                 if d = 0x2B \<or> d = 0x2D
                 then map_option (\<lambda>(xs, r). (c # d # xs, r)) (parse_digits1 ds)
                 else map_option (\<lambda>(xs, r). (c # xs, r)) (parse_digits1 cs)
             | [] \<Rightarrow> None)
          else Some ([], s)
      | [] \<Rightarrow> Some ([], s))"

definition parse_number :: "jsstring \<Rightarrow> (jsstring \<times> jsstring) option" where
  "parse_number s =
     (let (sign, s1) =
            (case s of c # cs \<Rightarrow> if c = 0x2D then ([c], cs) else ([], s) | [] \<Rightarrow> ([], s))
      in case parse_int s1 of
           None \<Rightarrow> None
         | Some (i, s2) \<Rightarrow>
             (case parse_frac s2 of
                None \<Rightarrow> None
              | Some (f, s3) \<Rightarrow>
                  (case parse_exp s3 of
                     None \<Rightarrow> None
                   | Some (e, s4) \<Rightarrow> Some (sign @ i @ f @ e, s4))))"

fun strip_prefix :: "jsstring \<Rightarrow> jsstring \<Rightarrow> jsstring option" where
  "strip_prefix [] s = Some s"
| "strip_prefix (p # ps) [] = None"
| "strip_prefix (p # ps) (c # cs) = (if p = c then strip_prefix ps cs else None)"

fun obj_put :: "jsstring \<Rightarrow> json \<Rightarrow> (jsstring \<times> json) list \<Rightarrow> (jsstring \<times> json) list" where
  "obj_put k v [] = [(k, v)]"
| "obj_put k v ((k', v') # m) = (if k' = k then (k, v) # m else (k', v') # obj_put k v m)"

lemma length_skip_ws: "length (skip_ws s) \<le> length s"
  by (induction s) auto

text \<open>
  A value, the elements of a non-empty array after its bracket, and the members
  of a non-empty object after its brace. Each returns the value read and the
  rest of the input. The recursion is on the length of the input: the tests
  \<open>length r < length s\<close> say that reading a value consumed input, which makes
  the functions total without any fuel.
\<close>

function parse_value :: "jsstring \<Rightarrow> (json \<times> jsstring) option"
  and parse_elements :: "json list \<Rightarrow> jsstring \<Rightarrow> (json \<times> jsstring) option"
  and parse_members :: "(jsstring \<times> json) list \<Rightarrow> jsstring \<Rightarrow> (json \<times> jsstring) option"
where
  "parse_value s =
     (case skip_ws s of
        [] \<Rightarrow> None
      | c # cs \<Rightarrow>
          if c = 0x5B then
            (case skip_ws cs of
               [] \<Rightarrow> None
             | d # ds \<Rightarrow> if d = 0x5D then Some (JArray [], ds) else parse_elements [] cs)
          else if c = 0x7B then
            (case skip_ws cs of
               [] \<Rightarrow> None
             | d # ds \<Rightarrow> if d = 0x7D then Some (JObject [], ds) else parse_members [] cs)
          else if c = 0x22 then map_option (\<lambda>(x, r). (JString x, r)) (parse_chars cs)
          else if c = 0x74
            then map_option (\<lambda>r. (JBool True, r)) (strip_prefix [0x72, 0x75, 0x65] cs)
          else if c = 0x66
            then map_option (\<lambda>r. (JBool False, r)) (strip_prefix [0x61, 0x6C, 0x73, 0x65] cs)
          else if c = 0x6E
            then map_option (\<lambda>r. (JNull, r)) (strip_prefix [0x75, 0x6C, 0x6C] cs)
          else map_option (\<lambda>(x, r). (JNumber x, r)) (parse_number (c # cs)))"
| "parse_elements acc s =
     (case parse_value s of
        None \<Rightarrow> None
      | Some (v, r) \<Rightarrow>
          if length r < length s then
            (case skip_ws r of
               [] \<Rightarrow> None
             | d # ds \<Rightarrow>
                 if d = 0x2C then parse_elements (acc @ [v]) ds
                 else if d = 0x5D then Some (JArray (acc @ [v]), ds)
                 else None)
          else None)"
| "parse_members acc s =
     (case skip_ws s of
        [] \<Rightarrow> None
      | q # qs \<Rightarrow>
          if q = 0x22 then
            (case parse_chars qs of
               None \<Rightarrow> None
             | Some (k, r1) \<Rightarrow>
                 (case skip_ws r1 of
                    [] \<Rightarrow> None
                  | c # r2 \<Rightarrow>
                      if c = 0x3A then
                        (case parse_value r2 of
                           None \<Rightarrow> None
                         | Some (v, r3) \<Rightarrow>
                             if length r3 < length r2 then
                               (case skip_ws r3 of
                                  [] \<Rightarrow> None
                                | d # ds \<Rightarrow>
                                    if d = 0x2C then parse_members (obj_put k v acc) ds
                                    else if d = 0x7D then Some (JObject (obj_put k v acc), ds)
                                    else None)
                             else None)
                      else None))
          else None)"
  by pat_completeness auto
termination
proof (relation "measure (\<lambda>x. case x of
          Inl s \<Rightarrow> 2 * length s
        | Inr (Inl (acc, s)) \<Rightarrow> 2 * length s + 1
        | Inr (Inr (acc, s)) \<Rightarrow> 2 * length s + 1)", goal_cases)
  case 1
  then show ?case by simp
next
  case (2 s c cs d ds)
  have "length (skip_ws s) \<le> length s" by (rule length_skip_ws)
  with 2 show ?case by simp
next
  case (3 s c cs d ds)
  have "length (skip_ws s) \<le> length s" by (rule length_skip_ws)
  with 3 show ?case by simp
next
  case (4 acc s)
  then show ?case by simp
next
  case (5 acc s x v r d ds)
  have "length (skip_ws r) \<le> length r" by (rule length_skip_ws)
  with 5 show ?case by simp
next
  case (6 acc s q qs x k r1 c r2)
  have a: "length (skip_ws s) \<le> length s" by (rule length_skip_ws)
  have b: "length (skip_ws r1) \<le> length r1" by (rule length_skip_ws)
  have c: "length r1 < length qs" using 6 by (auto dest: parse_chars_length)
  from 6 a b c show ?case by simp
next
  case (7 acc s q qs x k r1 c r2 x2 v r3 d ds)
  have a: "length (skip_ws s) \<le> length s" by (rule length_skip_ws)
  have b: "length (skip_ws r1) \<le> length r1" by (rule length_skip_ws)
  have c: "length r1 < length qs" using 7 by (auto dest: parse_chars_length)
  have d: "length (skip_ws r3) \<le> length r3" by (rule length_skip_ws)
  from 7 a b c d show ?case by simp
qed

declare parse_value.simps [simp del] parse_elements.simps [simp del]
  parse_members.simps [simp del]

text \<open>\<^verbatim>\<open>JSON.parse(text)\<close>: one value, then nothing but white space.\<close>

definition JSON_parse :: "jsstring \<Rightarrow> error + json" where
  "JSON_parse s =
     (case parse_value s of
        None \<Rightarrow> Inl SyntaxError
      | Some (v, r) \<Rightarrow> if skip_ws r = [] then Inr v else Inl SyntaxError)"

section \<open>The Secret Store (\<^verbatim>\<open>VaultView\<close> of src/App.tsx)\<close>

text \<open>The interface \<^verbatim>\<open>ApiKeyStore\<close> of src/types.ts.\<close>

datatype category = payment | social | ecommerce | other

record ApiKeyStore =
  provider :: jsstring
  key :: jsstring
  category :: category

definition category_string :: "category \<Rightarrow> jsstring" where
  "category_string c =
     (case c of payment \<Rightarrow> js ''payment'' | social \<Rightarrow> js ''social''
      | ecommerce \<Rightarrow> js ''ecommerce'' | other \<Rightarrow> js ''other'')"

definition string_category :: "jsstring \<Rightarrow> category option" where
  "string_category s =
     (if s = js ''payment'' then Some payment
      else if s = js ''social'' then Some social
      else if s = js ''ecommerce'' then Some ecommerce
      else if s = js ''other'' then Some other
      else None)"

text \<open>
  \<^verbatim>\<open>JSON.stringify(newKeys)\<close> at the type \<^verbatim>\<open>ApiKeyStore[]\<close>: each record is an
  object with the properties \<^verbatim>\<open>provider\<close>, \<^verbatim>\<open>key\<close>, \<^verbatim>\<open>category\<close> in the order of the
  object literal in \<^verbatim>\<open>addKey\<close>; members and elements are separated by commas,
  with no white space.
\<close>

definition stringify_ApiKeyStore :: "ApiKeyStore \<Rightarrow> jsstring" where
  "stringify_ApiKeyStore r =
     [0x7B] @ QuoteJSONString (js ''provider'') @ [0x3A] @ QuoteJSONString (provider r)
     @ [0x2C] @ QuoteJSONString (js ''key'') @ [0x3A] @ QuoteJSONString (key r)
     @ [0x2C] @ QuoteJSONString (js ''category'') @ [0x3A]
     @ QuoteJSONString (category_string (category r)) @ [0x7D]"

fun join_comma :: "jsstring list \<Rightarrow> jsstring" where
  "join_comma [] = []"
| "join_comma [x] = x"
| "join_comma (x # y # ys) = x @ [0x2C] @ join_comma (y # ys)"

definition JSON_stringify :: "ApiKeyStore list \<Rightarrow> jsstring" where
  "JSON_stringify ks = [0x5B] @ join_comma (map stringify_ApiKeyStore ks) @ [0x5D]"

text \<open>
  The JSON value of a record and of the sequence, and the reading of a parsed
  value at the type \<^verbatim>\<open>ApiKeyStore[]\<close>. The source passes the parsed value to
  \<^verbatim>\<open>setKeys\<close> unchecked; \<open>json_keys\<close> is \<open>None\<close> on every value that is not an
  array of exactly such records, where the typed state below has no value for
  what the component then holds.
\<close>

definition ApiKeyStore_json :: "ApiKeyStore \<Rightarrow> json" where
  "ApiKeyStore_json r =
     JObject [(js ''provider'', JString (provider r)), (js ''key'', JString (key r)),
              (js ''category'', JString (category_string (category r)))]"

fun json_ApiKeyStore :: "json \<Rightarrow> ApiKeyStore option" where
  "json_ApiKeyStore (JObject [(p, JString a), (k, JString b), (c, JString d)]) =
     (if p = js ''provider'' \<and> k = js ''key'' \<and> c = js ''category'' then
        (case string_category d of
           None \<Rightarrow> None
         | Some g \<Rightarrow> Some \<lparr>provider = a, key = b, category = g\<rparr>)
      else None)"
| "json_ApiKeyStore _ = None"

fun json_list :: "json list \<Rightarrow> ApiKeyStore list option" where
  "json_list [] = Some []"
| "json_list (v # vs) =
     (case json_ApiKeyStore v of
        None \<Rightarrow> None
      | Some r \<Rightarrow> map_option ((#) r) (json_list vs))"

fun json_keys :: "json \<Rightarrow> ApiKeyStore list option" where
  "json_keys (JArray vs) = json_list vs"
| "json_keys _ = None"

text \<open>
  The browser's \<^verbatim>\<open>localStorage\<close> is a map from keys to strings; \<^verbatim>\<open>getItem\<close> of
  an absent key is \<^verbatim>\<open>null\<close> (\<open>None\<close>). The state of the mounted component is its
  four \<^verbatim>\<open>useState\<close> variables (\<open>categorySel\<close> is the variable \<^verbatim>\<open>category\<close>),
  together with the storage and the list of \<^verbatim>\<open>setItem\<close> calls made so far.
  Storage is taken to have room: \<^verbatim>\<open>setItem\<close> does not fail.
\<close>

definition wealth_vault_keys :: jsstring where
  "wealth_vault_keys = js ''wealth_vault_keys''"

record VaultView =
  keys :: "ApiKeyStore list"
  newProvider :: jsstring
  newKey :: jsstring
  categorySel :: category
  localStorage :: "jsstring \<rightharpoonup> jsstring"
  setItem_calls :: "(jsstring \<times> jsstring) list"

definition VaultView_init :: "(jsstring \<rightharpoonup> jsstring) \<Rightarrow> VaultView" where
  "VaultView_init st =
     \<lparr>keys = [], newProvider = [], newKey = [], categorySel = payment,
      localStorage = st, setItem_calls = []\<rparr>"

text \<open>
  The effect run at mount (lines 75-78): \<^verbatim>\<open>if (saved) setKeys(JSON.parse(saved))\<close>.
  There is no \<^verbatim>\<open>try\<close> around it: what \<^verbatim>\<open>JSON.parse\<close> throws leaves the effect.
  \<open>Inl IllTypedState\<close> is not an exception of the code. It stands for a stored
  text that is JSON but not an array of objects with exactly the members
  \<^verbatim>\<open>provider\<close>, \<^verbatim>\<open>key\<close>, \<^verbatim>\<open>category\<close> in this order (a record with its members
  in another order, or with a further member, is such a text): the code loads
  it without error and holds the parsed value as \<^verbatim>\<open>keys\<close>, which the typed
  state of this model cannot follow.
\<close>

definition VaultView_mount :: "(jsstring \<rightharpoonup> jsstring) \<Rightarrow> error + VaultView" where
  "VaultView_mount st =
     (case st wealth_vault_keys of
        None \<Rightarrow> Inr (VaultView_init st)
      | Some saved \<Rightarrow>
          if saved = [] then Inr (VaultView_init st)
          else
            (case JSON_parse saved of
               Inl e \<Rightarrow> Inl e
             | Inr v \<Rightarrow>
                 (case json_keys v of
                    None \<Rightarrow> Inl IllTypedState
                  | Some ks \<Rightarrow> Inr ((VaultView_init st)\<lparr>keys := ks\<rparr>))))"

definition saveKeys :: "ApiKeyStore list \<Rightarrow> VaultView \<Rightarrow> VaultView" where
  "saveKeys newKeys s =
     s\<lparr>keys := newKeys,
       localStorage := (localStorage s)(wealth_vault_keys \<mapsto> JSON_stringify newKeys),
       setItem_calls := setItem_calls s @ [(wealth_vault_keys, JSON_stringify newKeys)]\<rparr>"

definition addKey :: "VaultView \<Rightarrow> VaultView" where
  "addKey s =
     (if newProvider s = [] \<or> newKey s = [] then s
      else (saveKeys (keys s @ [\<lparr>provider = newProvider s, key = newKey s,
                                 category = categorySel s\<rparr>]) s)
             \<lparr>newProvider := [], newKey := []\<rparr>)"

text \<open>\<^verbatim>\<open>xs.filter((x, i) => p(x, i))\<close>: the callback sees each element and its index.\<close>

fun filter_from :: "nat \<Rightarrow> ('a \<Rightarrow> nat \<Rightarrow> bool) \<Rightarrow> 'a list \<Rightarrow> 'a list" where
  "filter_from i p [] = []"
| "filter_from i p (x # xs) =
     (if p x i then x # filter_from (Suc i) p xs else filter_from (Suc i) p xs)"

definition Array_filter :: "('a \<Rightarrow> nat \<Rightarrow> bool) \<Rightarrow> 'a list \<Rightarrow> 'a list" where
  "Array_filter p xs = filter_from 0 p xs"

text \<open>
  \<^verbatim>\<open>deleteKey(index)\<close>. From the rendered rows the index is a position of
  \<^verbatim>\<open>keys\<close>; as a function it takes any integer.
\<close>

definition deleteKey :: "int \<Rightarrow> VaultView \<Rightarrow> VaultView" where
  "deleteKey index s = saveKeys (Array_filter (\<lambda>_ i. int i \<noteq> index) (keys s)) s"

text \<open>
  The add form: the three inputs are set by their \<^verbatim>\<open>onChange\<close> handlers, then the
  button calls \<^verbatim>\<open>addKey\<close>. This is the \<^verbatim>\<open>add(record)\<close> of the specification.
\<close>

definition add :: "jsstring \<Rightarrow> jsstring \<Rightarrow> category \<Rightarrow> VaultView \<Rightarrow> VaultView" where
  "add p k c s = addKey (s\<lparr>newProvider := p, newKey := k, categorySel := c\<rparr>)"

datatype vault_op = Add jsstring jsstring category | Delete int

fun apply_op :: "VaultView \<Rightarrow> vault_op \<Rightarrow> VaultView" where
  "apply_op s (Add p k c) = add p k c s"
| "apply_op s (Delete i) = deleteKey i s"

definition run_ops :: "vault_op list \<Rightarrow> VaultView \<Rightarrow> VaultView" where
  "run_ops ops s = foldl apply_op s ops"

text \<open>
  The relation between storage and memory that every operation keeps: either
  nothing was ever written and the sequence is empty, or the stored value is
  the serialised sequence.
\<close>

definition persisted_ok :: "VaultView \<Rightarrow> bool" where
  "persisted_ok s =
     (localStorage s wealth_vault_keys = None \<and> keys s = [] \<and> setItem_calls s = []
      \<or> localStorage s wealth_vault_keys = Some (JSON_stringify (keys s)))"

section \<open>The external generation service\<close>

text \<open>
  The service is outside the program. A call made to it is recorded as a
  \<open>request\<close>; what it answers arrives later as an event carrying either the
  rejection of the promise or the response. Of the structured-text response
  only \<^verbatim>\<open>.text\<close> is read, and only by \<^verbatim>\<open>JSON.parse\<close>, which converts its argument
  to a string first (an absent text reads as the string \<^verbatim>\<open>undefined\<close>): that
  response is the string handed to \<^verbatim>\<open>JSON.parse\<close>. Of the image response the
  path \<^verbatim>\<open>candidates[0].content.parts\<close> is read, each step of which may be
  absent.
\<close>

datatype config = responseMimeType jsstring | imageConfig_aspectRatio jsstring

datatype request =
    generateContent jsstring jsstring config
  | sendMessage jsstring

record Blob =
  mimeType :: jsstring
  data :: jsstring

record Part =
  inlineData :: "Blob option"

record Content =
  parts :: "Part list option"

record Candidate =
  content :: "Content option"

record GenerateContentResponse =
  candidates :: "Candidate list option"

section \<open>The Product-Listing panel (\<^verbatim>\<open>PodFactoryView\<close>)\<close>

text \<open>
  Both generation panels hold a \<^verbatim>\<open>prompt\<close> and an \<^verbatim>\<open>isLoading\<close> flag. The model
  adds the requests issued so far and the errors passed to \<^verbatim>\<open>console.error\<close>.
\<close>

record panel =
  prompt :: jsstring
  isLoading :: bool
  requests :: "request list"
  console :: "error list"

text \<open>
  \<^verbatim>\<open>strategy.title\<close> and \<^verbatim>\<open>strategy.description\<close> are whatever the parsed value
  holds under those names: \<open>None\<close> is \<^verbatim>\<open>undefined\<close>. Reading a property of
  \<^verbatim>\<open>null\<close> throws \<^verbatim>\<open>TypeError\<close>; a string, number, boolean or array has no
  property of either name.
\<close>

record GenerationResult =
  image :: jsstring
  title :: "json option"
  desc :: "json option"

definition get_property :: "json \<Rightarrow> jsstring \<Rightarrow> error + json option" where
  "get_property v name =
     (case v of
        JNull \<Rightarrow> Inl TypeError
      | JObject m \<Rightarrow> Inr (map_of m name)
      | _ \<Rightarrow> Inr None)"

text \<open>
  Every handler runs on the state of the latest render: the state updates of
  one event or of one settled promise are applied before the next is handled.
  An \<^verbatim>\<open>async\<close> function runs up to its first \<^verbatim>\<open>await\<close> and is resumed when the
  awaited promise settles. \<open>pod_pending\<close> is the suspended call of
  \<^verbatim>\<open>generateProduct\<close> with the variables it has captured: the \<^verbatim>\<open>prompt\<close> of the
  render in which the button was clicked and, at the second \<^verbatim>\<open>await\<close>, the
  parsed \<^verbatim>\<open>strategy\<close>.
\<close>

datatype pod_pending = AwaitStrategy jsstring | AwaitImage jsstring json

record PodFactoryView = panel +
  results :: "GenerationResult option"
  pending :: "pod_pending option"

definition PodFactoryView_init :: PodFactoryView where
  "PodFactoryView_init =
     \<lparr>prompt = [], isLoading = False, requests = [], console = [],
      results = None, pending = None\<rparr>"

definition strategy_request :: "jsstring \<Rightarrow> request" where
  "strategy_request p =
     generateContent (js ''gemini-3-flash-preview'')
       (js ''Create a high-converting Print-on-Demand product listing for: '' @ [0x22] @ p
        @ [0x22] @ js ''. Return a JSON object with keys: '' @ [0x22] @ js ''title'' @ [0x22]
        @ js '', '' @ [0x22] @ js ''description'' @ [0x22] @ js ''.'')
       (responseMimeType (js ''application/json''))"

definition image_request :: "jsstring \<Rightarrow> request" where
  "image_request p =
     generateContent (js ''gemini-2.5-flash-image'')
       (js (''Vectorized design for a high-end apparel product, white background, ''
            @ ''high-resolution minimalist aesthetic: '') @ p)
       (imageConfig_aspectRatio (js ''1:1''))"

text \<open>Lines 212-222: the guard, the two state updates and the first request.\<close>

definition generateProduct :: "PodFactoryView \<Rightarrow> PodFactoryView" where
  "generateProduct s =
     (if prompt s = [] \<or> isLoading s then s
      else s\<lparr>isLoading := True, results := None,
             requests := requests s @ [strategy_request (prompt s)],
             pending := Some (AwaitStrategy (prompt s))\<rparr>)"

text \<open>\<^verbatim>\<open>catch (e) { console.error(e); } finally { setIsLoading(false); }\<close>\<close>

definition pod_catch :: "error \<Rightarrow> PodFactoryView \<Rightarrow> PodFactoryView" where
  "pod_catch e s = s\<lparr>console := console s @ [e], isLoading := False, pending := None\<rparr>"

text \<open>Line 223 and the second request (lines 225-229).\<close>

definition strategy_settled :: "error + jsstring \<Rightarrow> PodFactoryView \<Rightarrow> PodFactoryView" where
  "strategy_settled outcome s =
     (case pending s of
        Some (AwaitStrategy p) \<Rightarrow>
          (case outcome of
             Inl e \<Rightarrow> pod_catch e s
           | Inr response_text \<Rightarrow>
               (case JSON_parse response_text of
                  Inl e \<Rightarrow> pod_catch e s
                | Inr strategy \<Rightarrow>
                    s\<lparr>requests := requests s @ [image_request p],
                      pending := Some (AwaitImage p strategy)\<rparr>))
      | _ \<Rightarrow> s)"

text \<open>
  Lines 231-234: \<^verbatim>\<open>b64\<close> starts empty and is assigned at every part that has
  inline data; the loop has no \<^verbatim>\<open>break\<close>.
\<close>

definition data_uri :: "Blob \<Rightarrow> jsstring" where
  "data_uri d = js ''data:'' @ mimeType d @ js '';base64,'' @ data d"

fun b64_loop :: "jsstring \<Rightarrow> Part list \<Rightarrow> jsstring" where
  "b64_loop b64 [] = b64"
| "b64_loop b64 (part # ps) =
     b64_loop (case inlineData part of None \<Rightarrow> b64 | Some d \<Rightarrow> data_uri d) ps"

definition response_parts :: "GenerateContentResponse \<Rightarrow> error + Part list" where
  "response_parts r =
     (case candidates r of
        None \<Rightarrow> Inl TypeError
      | Some [] \<Rightarrow> Inl TypeError
      | Some (c # _) \<Rightarrow>
          (case content c of
             None \<Rightarrow> Inl TypeError
           | Some ct \<Rightarrow>
               (case parts ct of
                  None \<Rightarrow> Inl TypeError
                | Some ps \<Rightarrow> Inr ps)))"

text \<open>The image extraction of the specification's \<^verbatim>\<open>generateImage\<close>.\<close>

definition generateImage :: "GenerateContentResponse \<Rightarrow> error + jsstring" where
  "generateImage r =
     (case response_parts r of
        Inl e \<Rightarrow> Inl e
      | Inr ps \<Rightarrow> Inr (b64_loop [] ps))"

text \<open>Lines 231-235 on the settled image request.\<close>

definition image_settled ::
  "error + GenerateContentResponse \<Rightarrow> PodFactoryView \<Rightarrow> PodFactoryView" where
  "image_settled outcome s =
     (case pending s of
        Some (AwaitImage p strategy) \<Rightarrow>
          (case outcome of
             Inl e \<Rightarrow> pod_catch e s
           | Inr imgResponse \<Rightarrow>
               (case generateImage imgResponse of
                  Inl e \<Rightarrow> pod_catch e s
                | Inr b64 \<Rightarrow>
                    (case get_property strategy (js ''title'') of
                       Inl e \<Rightarrow> pod_catch e s
                     | Inr t \<Rightarrow>
                         (case get_property strategy (js ''description'') of
                            Inl e \<Rightarrow> pod_catch e s
                          | Inr d \<Rightarrow>
                              s\<lparr>results := Some \<lparr>image = b64, title = t, desc = d\<rparr>,
                                isLoading := False, pending := None\<rparr>))))
      | _ \<Rightarrow> s)"

text \<open>
  The events of the panel: typing into the text area, clicking the button, and
  the settling of the two requests. A settling that finds no suspended call
  waiting for it changes nothing; none arrives, since each answers a request.
\<close>

datatype pod_event =
    SetPrompt jsstring
  | Submit
  | StrategySettled "error + jsstring"
  | ImageSettled "error + GenerateContentResponse"

fun pod_step :: "PodFactoryView \<Rightarrow> pod_event \<Rightarrow> PodFactoryView" where
  "pod_step s (SetPrompt p) = s\<lparr>prompt := p\<rparr>"
| "pod_step s Submit = generateProduct s"
| "pod_step s (StrategySettled outcome) = strategy_settled outcome s"
| "pod_step s (ImageSettled outcome) = image_settled outcome s"

definition pod_run :: "pod_event list \<Rightarrow> PodFactoryView \<Rightarrow> PodFactoryView" where
  "pod_run evs s = foldl pod_step s evs"

section \<open>The Chat panel (\<^verbatim>\<open>ChatbotView\<close>)\<close>

datatype role = user | model

record ChatMessage =
  role :: role
  "text" :: jsstring

text \<open>
  \<open>awaiting\<close> is the suspended call of \<^verbatim>\<open>handleSend\<close>, if any. The chat session of
  \<^verbatim>\<open>chatRef\<close> is created by the mount effect before anything is sent.
\<close>

record ChatbotView = panel +
  messages :: "ChatMessage list"
  awaiting :: "jsstring option"

definition ChatbotView_init :: ChatbotView where
  "ChatbotView_init =
     \<lparr>prompt = [], isLoading = False, requests = [], console = [],
      messages = [], awaiting = None\<rparr>"

text \<open>
  Lines 311-318. \<^verbatim>\<open>msgOverride || prompt\<close> takes the override unless it is
  absent or empty; \<^verbatim>\<open>!msgOverride\<close> holds in the same two cases.
\<close>

definition handleSend :: "jsstring option \<Rightarrow> ChatbotView \<Rightarrow> ChatbotView" where
  "handleSend msgOverride s =
     (let msg = (case msgOverride of
                   None \<Rightarrow> prompt s
                 | Some m \<Rightarrow> if m = [] then prompt s else m)
      in if msg = [] \<or> isLoading s then s
         else s\<lparr>prompt := (case msgOverride of
                              None \<Rightarrow> []
                            | Some m \<Rightarrow> if m = [] then [] else prompt s),
                messages := messages s @ [\<lparr>role = user, text = msg\<rparr>],
                isLoading := True,
                requests := requests s @ [sendMessage msg],
                awaiting := Some msg\<rparr>)"

text \<open>Lines 319-321 on the settled \<^verbatim>\<open>sendMessage\<close>.\<close>

definition reply_settled :: "error + jsstring \<Rightarrow> ChatbotView \<Rightarrow> ChatbotView" where
  "reply_settled outcome s =
     (case awaiting s of
        None \<Rightarrow> s
      | Some msg \<Rightarrow>
          (case outcome of
             Inl e \<Rightarrow> s\<lparr>console := console s @ [e], isLoading := False, awaiting := None\<rparr>
           | Inr result_text \<Rightarrow>
               s\<lparr>messages := messages s @ [\<lparr>role = model, text = result_text\<rparr>],
                 isLoading := False, awaiting := None\<rparr>))"

text \<open>The mount effect (lines 300-309): \<^verbatim>\<open>if (initialPrompt) handleSend(initialPrompt)\<close>.\<close>

definition ChatbotView_mount :: "jsstring option \<Rightarrow> ChatbotView" where
  "ChatbotView_mount initialPrompt =
     (case initialPrompt of
        None \<Rightarrow> ChatbotView_init
      | Some p \<Rightarrow> if p = [] then ChatbotView_init else handleSend (Some p) ChatbotView_init)"

datatype chat_event =
    Type jsstring
  | Send
  | ReplySettled "error + jsstring"

fun chat_step :: "ChatbotView \<Rightarrow> chat_event \<Rightarrow> ChatbotView" where
  "chat_step s (Type p) = s\<lparr>prompt := p\<rparr>"
| "chat_step s Send = handleSend None s"
| "chat_step s (ReplySettled outcome) = reply_settled outcome s"

definition chat_run :: "chat_event list \<Rightarrow> ChatbotView \<Rightarrow> ChatbotView" where
  "chat_run evs s = foldl chat_step s evs"

section \<open>The Shell (\<^verbatim>\<open>App\<close>)\<close>

datatype FeatureId =
    dashboard | socialStrategist | podFactory | affiliateStudio | chatbot | imageGenerator
  | videoGenerator | researcher | liveAssistant | speechGenerator | vault

record App =
  activeFeature :: FeatureId
  isMenuOpen :: bool
  chatbotInitialPrompt :: "jsstring option"

definition App_init :: App where
  "App_init = \<lparr>activeFeature = dashboard, isMenuOpen = False, chatbotInitialPrompt = None\<rparr>"

definition FEATURES :: "FeatureId list" where
  "FEATURES = [dashboard, socialStrategist, podFactory, affiliateStudio, imageGenerator,
               videoGenerator, researcher, chatbot, liveAssistant, vault]"

definition robin_hood_prompt :: jsstring where
  "robin_hood_prompt =
     js (''Give me a one-sentence high-level wealth strategy I should execute ''
         @ ''right now based on current market trends.'')"

definition triggerRobinHoodStrategy :: "App \<Rightarrow> App" where
  "triggerRobinHoodStrategy s =
     s\<lparr>chatbotInitialPrompt := Some robin_hood_prompt, activeFeature := chatbot\<rparr>"

datatype rendered =
    Dashboard_view | Vault_view | PodFactory_view | Chatbot_view "jsstring option"
  | Module_pending

definition CurrentView :: "App \<Rightarrow> rendered" where
  "CurrentView s =
     (case activeFeature s of
        dashboard \<Rightarrow> Dashboard_view
      | vault \<Rightarrow> Vault_view
      | podFactory \<Rightarrow> PodFactory_view
      | chatbot \<Rightarrow> Chatbot_view (chatbotInitialPrompt s)
      | _ \<Rightarrow> Module_pending)"

text \<open>
  What the user can do to the Shell: click a sidebar entry (one per element of
  \<open>FEATURES\<close>), toggle the mobile menu, or press the button of the dashboard,
  which exists only while the dashboard is rendered.
\<close>

datatype app_event = Select FeatureId | ToggleMenu | RobinHood

fun App_step :: "App \<Rightarrow> app_event \<Rightarrow> App" where
  "App_step s (Select f) =
     (if f \<in> set FEATURES
      then s\<lparr>activeFeature := f, isMenuOpen := False, chatbotInitialPrompt := None\<rparr>
      else s)"
| "App_step s ToggleMenu = s\<lparr>isMenuOpen := \<not> isMenuOpen s\<rparr>"
| "App_step s RobinHood =
     (if CurrentView s = Dashboard_view then triggerRobinHoodStrategy s else s)"

definition App_run :: "app_event list \<Rightarrow> App" where
  "App_run evs = foldl App_step App_init evs"

text \<open>The only seed the Shell ever holds is the fixed prompt of the dashboard button.\<close>

definition seed_ok :: "App \<Rightarrow> bool" where
  "seed_ok s =
     (chatbotInitialPrompt s = None \<or> chatbotInitialPrompt s = Some robin_hood_prompt)"

section \<open>Sample values\<close>

definition stripe :: ApiKeyStore where
  "stripe = \<lparr>provider = js ''Stripe'', key = js ''sk_123'', category = payment\<rparr>"

definition gumroad :: ApiKeyStore where
  "gumroad = \<lparr>provider = js ''Gumroad'', key = js ''gm_9'', category = ecommerce\<rparr>"

definition xcorp :: ApiKeyStore where
  "xcorp = \<lparr>provider = js ''X'', key = js ''tok'', category = social\<rparr>"

definition first_image :: Blob where
  "first_image = \<lparr>mimeType = js ''image/png'', data = js ''AAAA''\<rparr>"

definition second_image :: Blob where
  "second_image = \<lparr>mimeType = js ''image/jpeg'', data = js ''BBBB''\<rparr>"

definition response_of :: "Part list \<Rightarrow> GenerateContentResponse" where
  "response_of ps = \<lparr>candidates = Some [\<lparr>content = Some \<lparr>parts = Some ps\<rparr>\<rparr>]\<rparr>"

definition two_images :: GenerateContentResponse where
  "two_images = response_of [\<lparr>inlineData = Some first_image\<rparr>, \<lparr>inlineData = None\<rparr>,
                             \<lparr>inlineData = Some second_image\<rparr>]"


definition listing_json :: jsstring where
  "listing_json =
     [0x7B] @ QuoteJSONString (js ''title'') @ [0x3A] @ QuoteJSONString (js ''Cat Mug'')
     @ [0x2C] @ QuoteJSONString (js ''description'') @ [0x3A]
     @ QuoteJSONString (js ''A mug with a cat'') @ [0x7D]"

definition old_listing :: GenerationResult where
  "old_listing = \<lparr>image = data_uri first_image, title = Some (JString (js ''Old'')),
                   desc = Some (JString (js ''Shown before''))\<rparr>"

definition ready_panel :: PodFactoryView where
  "ready_panel = PodFactoryView_init\<lparr>prompt := js ''cat mug'', results := Some old_listing\<rparr>"



section \<open>The reader consumes input\<close>

text \<open>
  Whatever \<open>parse_value\<close> reads, it leaves a shorter input: the two length tests
  in \<open>parse_elements\<close> and \<open>parse_members\<close> never reject anything.
\<close>

lemma parse_digits1_length: "parse_digits1 s = Some (x, r) \<Longrightarrow> length r \<le> length s"
  by (auto simp: parse_digits1_def length_dropWhile_le split: if_splits)

lemma parse_int_length: "parse_int s = Some (x, r) \<Longrightarrow> length r < length s"
  by (auto simp: parse_int_def length_dropWhile_le less_Suc_eq_le split: list.splits if_splits)

lemma parse_frac_length: "parse_frac s = Some (x, r) \<Longrightarrow> length r \<le> length s"
  by (auto simp: parse_frac_def split: list.splits if_splits dest!: parse_digits1_length)

lemma parse_exp_length: "parse_exp s = Some (x, r) \<Longrightarrow> length r \<le> length s"
  by (auto simp: parse_exp_def split: list.splits if_splits dest!: parse_digits1_length)

lemma parse_number_length:
  assumes "parse_number s = Some (x, r)"
  shows "length r < length s"
proof -
  obtain sign s1 where a: "(case s of c # cs \<Rightarrow> if c = 0x2D then ([c], cs) else ([], s)
                                    | [] \<Rightarrow> ([], s)) = (sign, s1)"
    by (cases "(case s of c # cs \<Rightarrow> if c = 0x2D then ([c], cs) else ([], s) | [] \<Rightarrow> ([], s))")
  then have l1: "length s1 \<le> length s" by (auto split: list.splits if_splits)
  from assms a obtain i s2 f s3 e where
    b: "parse_int s1 = Some (i, s2)" and c: "parse_frac s2 = Some (f, s3)"
    and d: "parse_exp s3 = Some (e, r)"
    by (auto simp: parse_number_def split: option.splits)
  from parse_int_length [OF b] parse_frac_length [OF c] parse_exp_length [OF d] l1
  show ?thesis by simp
qed

lemma strip_prefix_length: "strip_prefix p s = Some r \<Longrightarrow> length r \<le> length s"
  by (induction p s rule: strip_prefix.induct) (auto split: if_splits)

lemma skip_ws_Cons_length: "skip_ws s = c # cs \<Longrightarrow> length cs < length s"
  using length_skip_ws [of s] by simp

lemma parse_value_scalar_length:
  assumes c: "skip_ws s = c # cs" and n: "c \<noteq> 0x5B" "c \<noteq> 0x7B"
    and p: "parse_value s = Some (v, r)"
  shows "length r < length s"
proof -
  note l = skip_ws_Cons_length [OF c]
  from p have "(if c = 0x22 then map_option (\<lambda>(x, r). (JString x, r)) (parse_chars cs)
          else if c = 0x74
            then map_option (\<lambda>r. (JBool True, r)) (strip_prefix [0x72, 0x75, 0x65] cs)
          else if c = 0x66
            then map_option (\<lambda>r. (JBool False, r)) (strip_prefix [0x61, 0x6C, 0x73, 0x65] cs)
          else if c = 0x6E
            then map_option (\<lambda>r. (JNull, r)) (strip_prefix [0x75, 0x6C, 0x6C] cs)
          else map_option (\<lambda>(x, r). (JNumber x, r)) (parse_number (c # cs))) = Some (v, r)"
    using c n by (subst (asm) parse_value.simps) simp
  then consider (str) x where "parse_chars cs = Some (x, r)"
    | (lit) w where "strip_prefix w cs = Some r"
    | (num) x where "parse_number (c # cs) = Some (x, r)"
    by (auto split: if_splits)
  then show ?thesis
  proof cases
    case str
    with parse_chars_length [of cs x r] l show ?thesis by simp
  next
    case lit
    with strip_prefix_length [of w cs r] l show ?thesis by simp
  next
    case num
    with parse_number_length [of "c # cs" x r] l show ?thesis by simp
  qed
qed


lemma parse_consumes:
  "(\<forall>v r. parse_value s = Some (v, r) \<longrightarrow> length r < length s)"
  "(\<forall>v r. parse_elements acc s = Some (v, r) \<longrightarrow> length r < length s)"
  "(\<forall>v r. parse_members macc s = Some (v, r) \<longrightarrow> length r < length s)"
proof (induction s and acc s and macc s rule: parse_value_parse_elements_parse_members.induct)
  case (1 s)
  show ?case
  proof (intro allI impI)
    fix v r assume p: "parse_value s = Some (v, r)"
    show "length r < length s"
    proof (cases "skip_ws s")
      case Nil
      with p show ?thesis by (simp add: parse_value.simps)
    next
      case (Cons c cs)
      note l = skip_ws_Cons_length [OF Cons]
      show ?thesis
      proof (cases "c = 0x5B \<or> c = 0x7B")
        case True
        show ?thesis
        proof (cases "skip_ws cs")
          case Nil
          with p Cons True show ?thesis
            by (subst (asm) parse_value.simps) auto
        next
          case inner: (Cons d ds)
          note m = skip_ws_Cons_length [OF inner]
          show ?thesis
          proof (cases "c = 0x5B")
            case bracket: True
            show ?thesis
            proof (cases "d = 0x5D")
              case True
              with p Cons inner bracket have "r = ds"
                by (subst (asm) parse_value.simps) simp
              with l m show ?thesis by simp
            next
              case False
              with p Cons inner bracket have "parse_elements [] cs = Some (v, r)"
                by (subst (asm) parse_value.simps) simp
              with "1.IH"(1) [OF Cons bracket inner False] have "length r < length cs"
                by simp
              with l show ?thesis by simp
            qed
          next
            case notbracket: False
            with True have brace: "c = 0x7B" by simp
            show ?thesis
            proof (cases "d = 0x7D")
              case True
              with p Cons inner brace have "r = ds"
                by (subst (asm) parse_value.simps) simp
              with l m show ?thesis by simp
            next
              case False
              with p Cons inner brace have "parse_members [] cs = Some (v, r)"
                by (subst (asm) parse_value.simps) simp
              with "1.IH"(2) [OF Cons notbracket brace inner False]
              have "length r < length cs" by simp
              with l show ?thesis by simp
            qed
          qed
        qed
      next
        case False
        with Cons p show ?thesis by (simp add: parse_value_scalar_length)
      qed
    qed
  qed
next
  case (2 acc s)
  show ?case
  proof (intro allI impI)
    fix w r' assume p: "parse_elements acc s = Some (w, r')"
    from p obtain v r where pv: "parse_value s = Some (v, r)"
      by (subst (asm) parse_elements.simps) (auto split: option.splits)
    from p pv have g: "length r < length s"
      by (subst (asm) parse_elements.simps) (simp split: if_splits)
    from p pv g obtain d ds where sk: "skip_ws r = d # ds"
      by (subst (asm) parse_elements.simps) (simp split: list.splits)
    note m = skip_ws_Cons_length [OF sk]
    from p pv g sk
    have alt: "d = 0x2C \<and> parse_elements (acc @ [v]) ds = Some (w, r') \<or> d = 0x5D \<and> r' = ds"
      by (subst (asm) parse_elements.simps) (simp split: if_splits)
    then show "length r' < length s"
    proof
      assume a: "d = 0x2C \<and> parse_elements (acc @ [v]) ds = Some (w, r')"
      then have "d = 0x2C" by simp
      from "2.IH"(2) [OF pv refl g sk this] a have "length r' < length ds" by simp
      with m g show ?thesis by simp
    next
      assume "d = 0x5D \<and> r' = ds"
      with m g show ?thesis by simp
    qed
  qed
next
  case (3 macc s)
  show ?case
  proof (intro allI impI)
    fix w r' assume p: "parse_members macc s = Some (w, r')"
    from p obtain q qs where s1: "skip_ws s = q # qs"
      by (subst (asm) parse_members.simps) (simp split: list.splits)
    note l1 = skip_ws_Cons_length [OF s1]
    from p s1 have q: "q = 0x22"
      by (subst (asm) parse_members.simps) (simp split: if_splits)
    from p s1 q obtain k r1 where pk: "parse_chars qs = Some (k, r1)"
      by (subst (asm) parse_members.simps) (auto split: option.splits)
    note l2 = parse_chars_length [OF pk]
    from p s1 q pk obtain c r2 where s2: "skip_ws r1 = c # r2"
      by (subst (asm) parse_members.simps) (simp split: list.splits)
    note l3 = skip_ws_Cons_length [OF s2]
    from p s1 q pk s2 have c: "c = 0x3A"
      by (subst (asm) parse_members.simps) (simp split: if_splits)
    from p s1 q pk s2 c obtain v r3 where pv: "parse_value r2 = Some (v, r3)"
      by (subst (asm) parse_members.simps) (auto split: option.splits)
    from p s1 q pk s2 c pv have g: "length r3 < length r2"
      by (subst (asm) parse_members.simps) (simp split: if_splits)
    from p s1 q pk s2 c pv g obtain d ds where s3: "skip_ws r3 = d # ds"
      by (subst (asm) parse_members.simps) (simp split: list.splits)
    note l4 = skip_ws_Cons_length [OF s3]
    from p s1 q pk s2 c pv g s3
    have alt: "d = 0x2C \<and> parse_members (obj_put k v macc) ds = Some (w, r')
               \<or> d = 0x7D \<and> r' = ds"
      by (subst (asm) parse_members.simps) (simp split: if_splits)
    then show "length r' < length s"
    proof
      assume a: "d = 0x2C \<and> parse_members (obj_put k v macc) ds = Some (w, r')"
      then have "d = 0x2C" by simp
      from "3.IH"(2) [OF s1 q pk refl s2 c pv refl g s3 this] a
      have "length r' < length ds" by simp
      with l1 l2 l3 l4 g show ?thesis by simp
    next
      assume "d = 0x7D \<and> r' = ds"
      with l1 l2 l3 l4 g show ?thesis by simp
    qed
  qed
qed

lemma parse_value_consumes: "parse_value s = Some (v, r) \<Longrightarrow> length r < length s"
  using parse_consumes(1) by blast

section \<open>Reading back what was quoted\<close>

lemma unat_hexdigit:
  assumes "n < 16"
  shows "unat (hexdigit n) = (if n < 10 then 48 + n else 87 + n)"
proof -
  have a: "unat (of_nat (48 + n) :: 16 word) = (48 + n) mod 2 ^ LENGTH(16)"
    by (rule unat_of_nat)
  have b: "unat (of_nat (87 + n) :: 16 word) = (87 + n) mod 2 ^ LENGTH(16)"
    by (rule unat_of_nat)
  from assms have "(48 + n) mod 65536 = 48 + n" and "(87 + n) mod 65536 = 87 + n"
    by simp_all
  with a b show ?thesis unfolding hexdigit_def by simp
qed

lemma hexval_hexdigit: "n < 16 \<Longrightarrow> hexval (hexdigit n) = Some n"
  by (simp add: hexval_def unat_hexdigit Let_def)


lemma hex_recompose:
  fixes n :: nat
  shows "4096 * (n div 4096 mod 16) + 256 * (n div 256 mod 16) + 16 * (n div 16 mod 16) + n mod 16
         = n mod 65536"
proof -
  have a: "n mod 65536 = 4096 * (n div 4096 mod 16) + n mod 4096"
    using mod_mult2_eq [of n 4096 16] by simp
  have b: "n mod 4096 = 256 * (n div 256 mod 16) + n mod 256"
    using mod_mult2_eq [of n 256 16] by simp
  have c: "n mod 256 = 16 * (n div 16 mod 16) + n mod 16"
    using mod_mult2_eq [of n 16 16] by simp
  from a b c show ?thesis by linarith
qed

lemma hex4_UnicodeEscape:
  "hex4 (hexdigit (unat c div 4096 mod 16)) (hexdigit (unat c div 256 mod 16))
        (hexdigit (unat c div 16 mod 16)) (hexdigit (unat c mod 16)) = Some c"
proof -
  have "unat c < 65536" using unsigned_less [of c] by simp
  then have m: "unat c mod 65536 = unat c" by simp
  show ?thesis
    by (simp add: hex4_def hexval_hexdigit hex_recompose m)
qed


lemma surrogate_plain:
  assumes "is_leading_surrogate c \<or> is_trailing_surrogate c"
  shows "c \<noteq> 0x22 \<and> c \<noteq> 0x5C \<and> \<not> c < 0x20"
proof -
  from assms have "55296 \<le> unat c"
    unfolding is_leading_surrogate_def is_trailing_surrogate_def word_le_nat_alt
    by auto
  then have "unat c \<noteq> 34 \<and> unat c \<noteq> 92 \<and> \<not> unat c < 32" by arith
  then show ?thesis
    unfolding word_less_nat_alt by auto
qed

lemma parse_chars_plain:
  "c \<noteq> 0x22 \<Longrightarrow> c \<noteq> 0x5C \<Longrightarrow> \<not> c < 0x20 \<Longrightarrow>
   parse_chars (c # t) = map_option (\<lambda>(s, r). (c # s, r)) (parse_chars t)"
  by simp

lemma parse_chars_escape:
  "unescape e = Some u \<Longrightarrow> e \<noteq> 0x75 \<Longrightarrow>
   parse_chars (0x5C # e # t) = map_option (\<lambda>(s, r). (u # s, r)) (parse_chars t)"
  by simp

lemma parse_chars_unicode:
  "parse_chars (UnicodeEscape c @ t) = map_option (\<lambda>(s, r). (c # s, r)) (parse_chars t)"
  by (simp add: UnicodeEscape_def Let_def hex4_UnicodeEscape)


lemma parse_chars_quote_unit:
  "parse_chars (quote_unit c @ t) = map_option (\<lambda>(s, r). (c # s, r)) (parse_chars t)"
proof -
  consider (bs) "c = 0x08" | (tab) "c = 0x09" | (lf) "c = 0x0A" | (ff) "c = 0x0C"
    | (cr) "c = 0x0D" | (quote) "c = 0x22" | (backslash) "c = 0x5C"
    | (unicode) "c \<notin> {0x08, 0x09, 0x0A, 0x0C, 0x0D, 0x22, 0x5C}"
        "c < 0x20 \<or> is_leading_surrogate c \<or> is_trailing_surrogate c"
    | (plain) "c \<notin> {0x08, 0x09, 0x0A, 0x0C, 0x0D, 0x22, 0x5C}"
        "\<not> (c < 0x20 \<or> is_leading_surrogate c \<or> is_trailing_surrogate c)"
    by blast
  then show ?thesis
  proof cases
    case bs
    then show ?thesis by (simp add: quote_unit_def unescape_def)
  next
    case tab
    then show ?thesis by (simp add: quote_unit_def unescape_def)
  next
    case lf
    then show ?thesis by (simp add: quote_unit_def unescape_def)
  next
    case ff
    then show ?thesis by (simp add: quote_unit_def unescape_def)
  next
    case cr
    then show ?thesis by (simp add: quote_unit_def unescape_def)
  next
    case quote
    then show ?thesis by (simp add: quote_unit_def unescape_def)
  next
    case backslash
    then show ?thesis by (simp add: quote_unit_def unescape_def)
  next
    case unicode
    then have "quote_unit c = UnicodeEscape c" by (simp add: quote_unit_def)
    then show ?thesis by (simp only: parse_chars_unicode)
  next
    case plain
    then have q: "quote_unit c = [c]" by (simp add: quote_unit_def)
    from plain have "c \<noteq> 0x22" "c \<noteq> 0x5C" "\<not> c < 0x20" by auto
    then show ?thesis unfolding q by (simp add: parse_chars_plain del: parse_chars.simps)
  qed
qed

lemma parse_chars_quote_units:
  "parse_chars (quote_units s @ 0x22 # rest) = Some (s, rest)"
proof (induction s rule: quote_units.induct)
  case 1
  show ?case by simp
next
  case (2 c)
  show ?case by (simp add: parse_chars_quote_unit del: parse_chars.simps) simp
next
  case (3 c d cs)
  show ?case
  proof (cases "is_leading_surrogate c \<and> is_trailing_surrogate d")
    case True
    then have c: "c \<noteq> 0x22 \<and> c \<noteq> 0x5C \<and> \<not> c < 0x20"
      and d: "d \<noteq> 0x22 \<and> d \<noteq> 0x5C \<and> \<not> d < 0x20"
      by (simp_all add: surrogate_plain)
    from True have "quote_units (c # d # cs) = c # d # quote_units cs" by simp
    then show ?thesis using c d 3(1) [OF True]
      by (simp add: parse_chars_plain del: parse_chars.simps)
  next
    case False
    then have "quote_units (c # d # cs) = quote_unit c @ quote_units (d # cs)" by auto
    then show ?thesis using 3(2) [OF False]
      by (simp add: parse_chars_quote_unit del: parse_chars.simps)
  qed
qed

lemma parse_value_string: "parse_value (QuoteJSONString s @ rest) = Some (JString s, rest)"
  by (subst parse_value.simps) (simp add: QuoteJSONString_def is_ws_def parse_chars_quote_units)

lemma QuoteJSONString_nonempty: "QuoteJSONString s \<noteq> []"
  by (simp add: QuoteJSONString_def)

lemma skip_ws_QuoteJSONString: "skip_ws (QuoteJSONString s @ t) = QuoteJSONString s @ t"
  by (simp add: QuoteJSONString_def is_ws_def)

lemma parse_members_string:
  assumes "d = 0x2C \<or> d = 0x7D"
  shows "parse_members acc (QuoteJSONString k @ 0x3A # QuoteJSONString v @ d # ds) =
           (if d = 0x2C then parse_members (obj_put k (JString v) acc) ds
            else Some (JObject (obj_put k (JString v) acc), ds))"
proof -
  have k: "skip_ws (QuoteJSONString k @ 0x3A # QuoteJSONString v @ d # ds)
             = 0x22 # quote_units k @ 0x22 # 0x3A # QuoteJSONString v @ d # ds"
    by (simp add: QuoteJSONString_def [of k] is_ws_def)
  have d: "skip_ws (d # ds) = d # ds" using assms by (auto simp: is_ws_def)
  show ?thesis
    using assms
    by (subst parse_members.simps)
       (auto simp: k d parse_chars_quote_units is_ws_def parse_value_string
          QuoteJSONString_nonempty)
qed


lemma parse_value_object:
  "parse_value (0x7B # QuoteJSONString k @ t) = parse_members [] (QuoteJSONString k @ t)"
  by (subst parse_value.simps) (simp add: QuoteJSONString_def is_ws_def)

lemma member_names_distinct:
  "js ''provider'' \<noteq> js ''key''" "js ''provider'' \<noteq> js ''category''"
  "js ''key'' \<noteq> js ''category''"
  by (simp_all add: js_def)

lemma parse_value_ApiKeyStore:
  "parse_value (stringify_ApiKeyStore r @ rest) = Some (ApiKeyStore_json r, rest)"
  by (simp add: stringify_ApiKeyStore_def parse_value_object parse_members_string
        member_names_distinct ApiKeyStore_json_def)

lemma stringify_ApiKeyStore_nonempty: "stringify_ApiKeyStore r \<noteq> []"
  by (simp add: stringify_ApiKeyStore_def)

lemma parse_elements_step:
  assumes "parse_value (x @ d # ds) = Some (v, d # ds)" and "x \<noteq> []"
    and "d = 0x2C \<or> d = 0x5D"
  shows "parse_elements acc (x @ d # ds) =
           (if d = 0x2C then parse_elements (acc @ [v]) ds
            else Some (JArray (acc @ [v]), ds))"
proof -
  have d: "skip_ws (d # ds) = d # ds" using assms(3) by (auto simp: is_ws_def)
  show ?thesis
    using assms by (subst parse_elements.simps) (auto simp: is_ws_def)
qed

lemma parse_elements_ApiKeyStores:
  "parse_elements acc (join_comma (map stringify_ApiKeyStore (r # rs)) @ 0x5D # rest)
     = Some (JArray (acc @ map ApiKeyStore_json (r # rs)), rest)"
proof (induction rs arbitrary: r acc)
  case Nil
  show ?case
    using parse_elements_step
            [of "stringify_ApiKeyStore r" "0x5D" rest "ApiKeyStore_json r" acc]
    by (simp add: parse_value_ApiKeyStore stringify_ApiKeyStore_nonempty)
next
  case (Cons r' rs)
  have "parse_elements acc
          (stringify_ApiKeyStore r
           @ 0x2C # join_comma (map stringify_ApiKeyStore (r' # rs)) @ 0x5D # rest)
        = parse_elements (acc @ [ApiKeyStore_json r])
            (join_comma (map stringify_ApiKeyStore (r' # rs)) @ 0x5D # rest)"
    using parse_elements_step
            [of "stringify_ApiKeyStore r" "0x2C"
                "join_comma (map stringify_ApiKeyStore (r' # rs)) @ 0x5D # rest"
                "ApiKeyStore_json r" acc]
    by (simp add: parse_value_ApiKeyStore stringify_ApiKeyStore_nonempty)
  then show ?case
    using Cons [of "acc @ [ApiKeyStore_json r]" r'] by simp
qed

lemma parse_value_array:
  "parse_value (JSON_stringify ks @ rest) = Some (JArray (map ApiKeyStore_json ks), rest)"
proof (cases ks)
  case Nil
  then show ?thesis
    by (subst parse_value.simps) (simp add: JSON_stringify_def is_ws_def)
next
  case (Cons r rs)
  have open_bracket: "parse_value (0x5B # stringify_ApiKeyStore r @ t)
          = parse_elements [] (stringify_ApiKeyStore r @ t)" for t
    by (subst parse_value.simps)
       (simp add: stringify_ApiKeyStore_def QuoteJSONString_def is_ws_def)
  have split: "join_comma (map stringify_ApiKeyStore (r # rs)) @ 0x5D # rest
                 = stringify_ApiKeyStore r
                   @ (case rs of
                        [] \<Rightarrow> 0x5D # rest
                      | r' # rs' \<Rightarrow>
                          0x2C # join_comma (map stringify_ApiKeyStore (r' # rs')) @ 0x5D # rest)"
    by (cases rs) simp_all
  have "parse_value (JSON_stringify ks @ rest)
          = parse_value (0x5B # join_comma (map stringify_ApiKeyStore (r # rs)) @ 0x5D # rest)"
    using Cons by (simp add: JSON_stringify_def)
  also have "\<dots> = parse_elements []
                       (join_comma (map stringify_ApiKeyStore (r # rs)) @ 0x5D # rest)"
    unfolding split by (rule open_bracket)
  also have "\<dots> = Some (JArray (map ApiKeyStore_json ks), rest)"
    using Cons parse_elements_ApiKeyStores [of "[]" r rs rest] by simp
  finally show ?thesis .
qed

lemma JSON_parse_stringify:
  "JSON_parse (JSON_stringify ks) = Inr (JArray (map ApiKeyStore_json ks))"
  using parse_value_array [of ks "[]"] by (simp add: JSON_parse_def)

lemma string_category_inverse: "string_category (category_string c) = Some c"
  by (cases c) (simp_all add: string_category_def category_string_def js_def)

lemma json_ApiKeyStore_inverse: "json_ApiKeyStore (ApiKeyStore_json r) = Some r"
  by (simp add: ApiKeyStore_json_def string_category_inverse)

lemma json_list_inverse: "json_list (map ApiKeyStore_json ks) = Some ks"
  by (induction ks) (simp_all add: json_ApiKeyStore_inverse)

lemma JSON_stringify_nonempty: "JSON_stringify ks \<noteq> []"
  by (simp add: JSON_stringify_def)

lemma mount_reads_back:
  assumes "st wealth_vault_keys = Some (JSON_stringify ks)"
  shows "VaultView_mount st = Inr ((VaultView_init st)\<lparr>keys := ks\<rparr>)"
  using assms
  by (simp add: VaultView_mount_def JSON_stringify_nonempty JSON_parse_stringify
        json_list_inverse)

section \<open>Properties of the Secret Store\<close>

lemma filter_from_delete:
  "filter_from k (\<lambda>_ j. int j \<noteq> idx) xs =
     (if int k \<le> idx \<and> idx < int k + int (length xs)
      then take (nat (idx - int k)) xs @ drop (Suc (nat (idx - int k))) xs
      else xs)"
proof (induction xs arbitrary: k)
  case Nil
  then show ?case by simp
next
  case (Cons x xs)
  show ?case
  proof (cases "int k = idx")
    case True
    then show ?thesis using Cons [of "Suc k"] by simp
  next
    case False
    show ?thesis
    proof (cases "int k < idx \<and> idx < int k + int (length xs) + 1")
      case True
      then have n: "nat (idx - int k) = Suc (nat (idx - int (Suc k)))" by arith
      from True False show ?thesis using Cons [of "Suc k"] by (simp add: n)
    next
      case out: False
      with False show ?thesis using Cons [of "Suc k"] by auto
    qed
  qed
qed

text \<open>
  C8. On a store of size N, deleting at a position i with 0 <= i < N removes
  exactly the element at position i: what remains is the elements before i
  followed by the elements after i, in their order, and the size is N - 1.
\<close>

theorem deleteKey_removes_position:
  assumes "i < length (keys s)"
  shows "keys (deleteKey (int i) s) = take i (keys s) @ drop (Suc i) (keys s)
         \<and> length (keys (deleteKey (int i) s)) = length (keys s) - 1"
proof -
  have k: "keys (deleteKey (int i) s) = filter_from 0 (\<lambda>_ j. int j \<noteq> int i) (keys s)"
    by (simp add: deleteKey_def saveKeys_def Array_filter_def)
  have "filter_from 0 (\<lambda>_ j. int j \<noteq> int i) (keys s)
          = take i (keys s) @ drop (Suc i) (keys s)"
    using assms by (simp only: filter_from_delete) simp
  with k have e: "keys (deleteKey (int i) s) = take i (keys s) @ drop (Suc i) (keys s)"
    by simp
  from assms show ?thesis unfolding e by simp
qed

theorem deleteKey_removes_position_witness:
  "(1::nat) < length (keys ((VaultView_init Map.empty)\<lparr>keys := [stripe, gumroad, xcorp]\<rparr>))
   \<and> keys (deleteKey (int 1) ((VaultView_init Map.empty)\<lparr>keys := [stripe, gumroad, xcorp]\<rparr>))
       = [stripe, xcorp]"
  using deleteKey_removes_position
          [of 1 "(VaultView_init Map.empty)\<lparr>keys := [stripe, gumroad, xcorp]\<rparr>"]
  by (simp add: VaultView_init_def)

text \<open>
  C9. Adding a record whose provider name or secret value is empty changes
  nothing: the sequence, the storage and the list of writes are as before.
  Otherwise the record is appended at the end of the sequence and the whole
  new sequence is written under the storage key in the same call.
\<close>

theorem add_appends_or_rejects:
  "(p = [] \<or> k = [] \<longrightarrow>
      keys (add p k c s) = keys s
      \<and> localStorage (add p k c s) = localStorage s
      \<and> setItem_calls (add p k c s) = setItem_calls s)
   \<and> (p \<noteq> [] \<and> k \<noteq> [] \<longrightarrow>
      keys (add p k c s) = keys s @ [\<lparr>provider = p, key = k, category = c\<rparr>]
      \<and> localStorage (add p k c s) wealth_vault_keys
          = Some (JSON_stringify (keys s @ [\<lparr>provider = p, key = k, category = c\<rparr>]))
      \<and> setItem_calls (add p k c s)
          = setItem_calls s
            @ [(wealth_vault_keys,
                JSON_stringify (keys s @ [\<lparr>provider = p, key = k, category = c\<rparr>]))])"
  by (simp add: add_def addKey_def saveKeys_def)

theorem add_appends_or_rejects_witness:
  "(([]::jsstring) = [] \<or> js ''secret'' = [])
   \<and> keys (add [] (js ''secret'') payment (VaultView_init Map.empty)) = []
   \<and> setItem_calls (add [] (js ''secret'') payment (VaultView_init Map.empty)) = []
   \<and> (js ''provider'' = [] \<or> ([]::jsstring) = [])
   \<and> keys (add (js ''provider'') [] payment (VaultView_init Map.empty)) = []
   \<and> setItem_calls (add (js ''provider'') [] payment (VaultView_init Map.empty)) = []
   \<and> (js ''Stripe'' \<noteq> [] \<and> js ''sk_123'' \<noteq> [])
   \<and> keys (add (js ''Stripe'') (js ''sk_123'') payment (VaultView_init Map.empty)) = [stripe]
   \<and> localStorage (add (js ''Stripe'') (js ''sk_123'') payment (VaultView_init Map.empty))
        wealth_vault_keys = Some (JSON_stringify [stripe])"
  using add_appends_or_rejects [of "[]" "js ''secret''" payment "VaultView_init Map.empty"]
        add_appends_or_rejects [of "js ''provider''" "[]" payment "VaultView_init Map.empty"]
        add_appends_or_rejects [of "js ''Stripe''" "js ''sk_123''" payment
                                   "VaultView_init Map.empty"]
  by (simp add: VaultView_init_def js_def stripe_def)

text \<open>
  C10. On a store of size N, deleting at a position that is negative or at
  least N does not fail and leaves the sequence as it is, and the unchanged
  sequence is written to the storage once more.
\<close>

theorem deleteKey_out_of_range:
  assumes "index < 0 \<or> int (length (keys s)) \<le> index"
  shows "keys (deleteKey index s) = keys s
         \<and> localStorage (deleteKey index s) wealth_vault_keys = Some (JSON_stringify (keys s))
         \<and> setItem_calls (deleteKey index s)
             = setItem_calls s @ [(wealth_vault_keys, JSON_stringify (keys s))]"
proof -
  have "filter_from 0 (\<lambda>_ j. int j \<noteq> index) (keys s) = keys s"
    using assms by (simp only: filter_from_delete) auto
  then show ?thesis
    by (simp add: deleteKey_def saveKeys_def Array_filter_def)
qed

theorem deleteKey_out_of_range_witness:
  "((-1::int) < 0 \<or> int (length (keys ((VaultView_init Map.empty)\<lparr>keys := [stripe, xcorp]\<rparr>))) \<le> -1)
   \<and> keys (deleteKey (-1) ((VaultView_init Map.empty)\<lparr>keys := [stripe, xcorp]\<rparr>))
       = [stripe, xcorp]
   \<and> ((2::int) < 0 \<or> int (length (keys ((VaultView_init Map.empty)\<lparr>keys := [stripe, xcorp]\<rparr>))) \<le> 2)
   \<and> keys (deleteKey 2 ((VaultView_init Map.empty)\<lparr>keys := [stripe, xcorp]\<rparr>))
       = [stripe, xcorp]
   \<and> setItem_calls (deleteKey 2 ((VaultView_init Map.empty)\<lparr>keys := [stripe, xcorp]\<rparr>))
       = [(wealth_vault_keys, JSON_stringify [stripe, xcorp])]"
  using deleteKey_out_of_range [of "-1" "(VaultView_init Map.empty)\<lparr>keys := [stripe, xcorp]\<rparr>"]
        deleteKey_out_of_range [of 2 "(VaultView_init Map.empty)\<lparr>keys := [stripe, xcorp]\<rparr>"]
  by (simp add: VaultView_init_def)

lemma persisted_ok_saveKeys: "persisted_ok (saveKeys ks s)"
  by (simp add: persisted_ok_def saveKeys_def)

lemma persisted_ok_apply_op: "persisted_ok s \<Longrightarrow> persisted_ok (apply_op s x)"
proof (cases x)
  case (Add p k c)
  assume "persisted_ok s"
  then show ?thesis
    using Add by (auto simp: add_def addKey_def persisted_ok_def saveKeys_def)
next
  case (Delete i)
  then show ?thesis by (simp add: deleteKey_def persisted_ok_saveKeys)
qed

lemma persisted_ok_foldl: "persisted_ok s \<Longrightarrow> persisted_ok (foldl apply_op s ops)"
  by (induction ops arbitrary: s) (simp_all add: persisted_ok_apply_op)

lemma persisted_ok_reload:
  assumes "persisted_ok s"
  shows "VaultView_mount (localStorage s)
           = Inr ((VaultView_init (localStorage s))\<lparr>keys := keys s\<rparr>)"
  using assms unfolding persisted_ok_def
proof (elim disjE conjE)
  assume "localStorage s wealth_vault_keys = None" and "keys s = []"
  then show ?thesis by (simp add: VaultView_mount_def VaultView_init_def)
next
  assume "localStorage s wealth_vault_keys = Some (JSON_stringify (keys s))"
  then show ?thesis by (rule mount_reads_back)
qed

text \<open>
  C1, as stated: after every operation the stored value is the serialised
  sequence. On a fresh store a rejected add writes nothing, so the storage key
  is still absent while the serialised empty sequence is the text \<^verbatim>\<open>[]\<close>.
\<close>

theorem persisted_equals_serialized_counterexample:
  "localStorage (run_ops [Add [] (js ''secret'') payment] (VaultView_init Map.empty))
     wealth_vault_keys
   \<noteq> Some (JSON_stringify
             (keys (run_ops [Add [] (js ''secret'') payment] (VaultView_init Map.empty))))"
  by (simp add: run_ops_def add_def addKey_def VaultView_init_def)

text \<open>
  C1, amended. Start from a store with nothing under the storage key, where the
  mount yields the empty sequence. After any sequence of add and delete
  operations, either nothing has been written yet, the key is still absent and
  the sequence in memory is empty, or the stored value is the serialised
  sequence in memory. In both cases mounting again on the storage yields
  exactly the sequence in memory.
\<close>

theorem persisted_matches_memory:
  assumes "st wealth_vault_keys = None"
  shows "VaultView_mount st = Inr (VaultView_init st)
         \<and> (localStorage (run_ops ops (VaultView_init st)) wealth_vault_keys = None
              \<and> keys (run_ops ops (VaultView_init st)) = []
              \<and> setItem_calls (run_ops ops (VaultView_init st)) = []
            \<or> localStorage (run_ops ops (VaultView_init st)) wealth_vault_keys
                = Some (JSON_stringify (keys (run_ops ops (VaultView_init st)))))
         \<and> VaultView_mount (localStorage (run_ops ops (VaultView_init st)))
             = Inr ((VaultView_init (localStorage (run_ops ops (VaultView_init st))))
                      \<lparr>keys := keys (run_ops ops (VaultView_init st))\<rparr>)"
proof -
  have "persisted_ok (VaultView_init st)"
    using assms by (simp add: persisted_ok_def VaultView_init_def)
  then have ok: "persisted_ok (run_ops ops (VaultView_init st))"
    unfolding run_ops_def by (rule persisted_ok_foldl)
  have m: "VaultView_mount st = Inr (VaultView_init st)"
    using assms by (simp add: VaultView_mount_def)
  from ok have d: "localStorage (run_ops ops (VaultView_init st)) wealth_vault_keys = None
              \<and> keys (run_ops ops (VaultView_init st)) = []
              \<and> setItem_calls (run_ops ops (VaultView_init st)) = []
            \<or> localStorage (run_ops ops (VaultView_init st)) wealth_vault_keys
                = Some (JSON_stringify (keys (run_ops ops (VaultView_init st))))"
    by (simp only: persisted_ok_def)
  from m d persisted_ok_reload [OF ok] show ?thesis by blast
qed

theorem persisted_matches_memory_witness:
  "Map.empty wealth_vault_keys = None
   \<and> keys (run_ops [Add (js ''Stripe'') (js ''sk_123'') payment] (VaultView_init Map.empty))
       = [stripe]
   \<and> localStorage (run_ops [Add (js ''Stripe'') (js ''sk_123'') payment]
                      (VaultView_init Map.empty)) wealth_vault_keys
       = Some (JSON_stringify [stripe])
   \<and> map_sum id keys
        (VaultView_mount (localStorage (run_ops [Add (js ''Stripe'') (js ''sk_123'') payment]
                                          (VaultView_init Map.empty))))
       = Inr [stripe]
   \<and> keys (run_ops [Add (js ''Stripe'') (js ''sk_123'') payment, Delete 0]
              (VaultView_init Map.empty)) = []
   \<and> localStorage (run_ops [Add (js ''Stripe'') (js ''sk_123'') payment, Delete 0]
                      (VaultView_init Map.empty)) wealth_vault_keys
       = Some (JSON_stringify [])"
  using persisted_matches_memory
          [of Map.empty "[Add (js ''Stripe'') (js ''sk_123'') payment]"]
        persisted_matches_memory
          [of Map.empty "[Add (js ''Stripe'') (js ''sk_123'') payment, Delete 0]"]
  by (simp add: run_ops_def add_def addKey_def saveKeys_def deleteKey_def Array_filter_def
        VaultView_init_def stripe_def js_def)

text \<open>
  C3. The mount must yield the empty sequence for a stored value that is
  missing or malformed. For the stored text \<^verbatim>\<open>{\<close> the effect does not yield a
  state: \<^verbatim>\<open>JSON.parse\<close> throws and nothing catches it.
\<close>

theorem mount_malformed_throws:
  "VaultView_mount (Map.empty(wealth_vault_keys \<mapsto> js ''{'')) = Inl SyntaxError"
  by (simp add: VaultView_mount_def JSON_parse_def js_def parse_value.simps)

section \<open>Properties of the generation panels\<close>


text \<open>What the sample responses evaluate to.\<close>

lemma JSON_parse_listing:
  "JSON_parse listing_json
     = Inr (JObject [(js ''title'', JString (js ''Cat Mug'')),
                     (js ''description'', JString (js ''A mug with a cat''))])"
proof -
  have "js ''title'' \<noteq> js ''description''" by (simp add: js_def)
  then show ?thesis
    by (simp add: listing_json_def JSON_parse_def parse_value_object parse_members_string)
qed



lemma ready_panel_accepts: "prompt ready_panel \<noteq> []" "\<not> isLoading ready_panel"
  by (simp_all add: ready_panel_def PodFactoryView_init_def js_def)







text \<open>
  Single flight: a panel is loading exactly while a call of its handler is
  suspended, so one suspended call at a time is all the state has to hold.
\<close>

lemma pod_single_flight:
  assumes "isLoading s \<longleftrightarrow> pending s \<noteq> None"
  shows "isLoading (pod_step s ev) \<longleftrightarrow> pending (pod_step s ev) \<noteq> None"
proof (cases ev)
  case (SetPrompt p)
  with assms show ?thesis by simp
next
  case Submit
  with assms show ?thesis by (simp add: generateProduct_def)
next
  case (StrategySettled outcome)
  with assms show ?thesis
    by (auto simp: strategy_settled_def pod_catch_def
             split: option.splits pod_pending.splits sum.splits)
next
  case (ImageSettled outcome)
  with assms show ?thesis
    by (auto simp: image_settled_def pod_catch_def
             split: option.splits pod_pending.splits sum.splits)
qed

lemma chat_single_flight:
  assumes "isLoading s \<longleftrightarrow> awaiting s \<noteq> None"
  shows "isLoading (chat_step s ev) \<longleftrightarrow> awaiting (chat_step s ev) \<noteq> None"
proof (cases ev)
  case (Type p)
  with assms show ?thesis by simp
next
  case Send
  with assms show ?thesis by (simp add: handleSend_def Let_def)
next
  case (ReplySettled outcome)
  with assms show ?thesis
    by (auto simp: reply_settled_def split: option.splits sum.splits)
qed

text \<open>
  C5. While the \<^verbatim>\<open>isLoading\<close> flag of a panel is set, a submit changes
  nothing in that panel: no request is added and the state, with the suspended
  call in it, is the same, so whatever follows runs as if the submit had not
  happened. This holds for the Product-Listing panel and for the Chat panel,
  with or without an override message.
\<close>

theorem submit_while_loading_ignored:
  "(isLoading p \<longrightarrow>
      generateProduct p = p \<and> pod_run (Submit # evs) p = pod_run evs p)
   \<and> (isLoading c \<longrightarrow>
      handleSend msgOverride c = c \<and> chat_run (Send # cevs) c = chat_run cevs c)"
  by (simp add: generateProduct_def handleSend_def pod_run_def chat_run_def Let_def)

theorem submit_while_loading_ignored_witness:
  "isLoading (generateProduct ready_panel)
   \<and> generateProduct (generateProduct ready_panel) = generateProduct ready_panel
   \<and> requests (generateProduct (generateProduct ready_panel))
       = [strategy_request (js ''cat mug'')]
   \<and> isLoading (ChatbotView_mount (Some (js ''hello'')))
   \<and> handleSend None (ChatbotView_mount (Some (js ''hello'')))
       = ChatbotView_mount (Some (js ''hello''))
   \<and> requests (handleSend None (ChatbotView_mount (Some (js ''hello''))))
       = [sendMessage (js ''hello'')]"
  using submit_while_loading_ignored
          [of "generateProduct ready_panel" "[]" "ChatbotView_mount (Some (js ''hello''))"
              None "[]"]
  by (simp add: generateProduct_def ready_panel_def PodFactoryView_init_def
        ChatbotView_mount_def handleSend_def ChatbotView_init_def js_def Let_def
        pod_run_def chat_run_def)

lemma accepted_submit:
  assumes "prompt s \<noteq> []" and "\<not> isLoading s"
  shows "generateProduct s
           = s\<lparr>isLoading := True, results := None,
               requests := requests s @ [strategy_request (prompt s)],
               pending := Some (AwaitStrategy (prompt s))\<rparr>"
  using assms by (simp add: generateProduct_def)




lemma failed_attempt:
  assumes "prompt s \<noteq> []" and "\<not> isLoading s"
    and "console (image_settled o2 (strategy_settled o1 (generateProduct s))) \<noteq> console s"
  shows "results (image_settled o2 (strategy_settled o1 (generateProduct s))) = None
         \<and> \<not> isLoading (image_settled o2 (strategy_settled o1 (generateProduct s)))"
  using assms(3) unfolding accepted_submit [OF assms(1,2)]
  by (auto simp: strategy_settled_def image_settled_def pod_catch_def split: sum.splits)


text \<open>
  C2, as stated: a failed submission leaves the result state as it was. A panel
  that shows a listing and whose next submission is rejected shows nothing
  afterwards.
\<close>

theorem prior_result_kept_counterexample:
  "results (pod_run [Submit, StrategySettled (Inl Rejected)] ready_panel)
     \<noteq> results ready_panel"
  by (simp add: pod_run_def generateProduct_def strategy_settled_def pod_catch_def
        ready_panel_def PodFactoryView_init_def js_def)

text \<open>
  C2, amended. An accepted submission that fails, in the structured-text step,
  in the image step or while the result is put together (an error is logged),
  ends with no result shown at all, neither a partial one nor the one shown
  before, which was cleared when the submission started; the loading flag is
  reset.
\<close>

theorem failed_submission_shows_nothing:
  assumes "prompt s \<noteq> []" and "\<not> isLoading s"
    and "console (pod_run [Submit, StrategySettled o1, ImageSettled o2] s) \<noteq> console s"
  shows "results (pod_run [Submit, StrategySettled o1, ImageSettled o2] s) = None
         \<and> \<not> isLoading (pod_run [Submit, StrategySettled o1, ImageSettled o2] s)"
  using failed_attempt [OF assms(1,2), of o2 o1] assms(3) by (simp add: pod_run_def)

theorem failed_submission_shows_nothing_witness:
  "prompt ready_panel \<noteq> [] \<and> \<not> isLoading ready_panel
   \<and> results ready_panel = Some old_listing
   \<and> console (pod_run [Submit, StrategySettled (Inl Rejected), ImageSettled (Inr two_images)]
                 ready_panel) = [Rejected]
   \<and> results (pod_run [Submit, StrategySettled (Inl Rejected), ImageSettled (Inr two_images)]
                 ready_panel) = None
   \<and> console (pod_run [Submit, StrategySettled (Inr listing_json), ImageSettled (Inl Rejected)]
                 ready_panel) = [Rejected]
   \<and> results (pod_run [Submit, StrategySettled (Inr listing_json), ImageSettled (Inl Rejected)]
                 ready_panel) = None"
proof -
  have a: "console (pod_run [Submit, StrategySettled (Inl Rejected),
                             ImageSettled (Inr two_images)] ready_panel) = [Rejected]"
    by (simp add: pod_run_def generateProduct_def strategy_settled_def image_settled_def
          pod_catch_def ready_panel_def PodFactoryView_init_def js_def)
  have b: "console (pod_run [Submit, StrategySettled (Inr listing_json),
                             ImageSettled (Inl Rejected)] ready_panel) = [Rejected]"
    by (simp add: pod_run_def generateProduct_def strategy_settled_def image_settled_def
          pod_catch_def ready_panel_def PodFactoryView_init_def js_def JSON_parse_listing)
  have c: "console ready_panel = []" "results ready_panel = Some old_listing"
    by (simp_all add: ready_panel_def PodFactoryView_init_def)
  show ?thesis
    using failed_submission_shows_nothing
            [OF ready_panel_accepts, of "Inl Rejected" "Inr two_images"]
          failed_submission_shows_nothing
            [OF ready_panel_accepts, of "Inr listing_json" "Inl Rejected"]
    by (simp add: a b c ready_panel_accepts)
qed

section \<open>Properties of the Chat panel and the Shell\<close>

lemma seed_ok_step: "seed_ok s \<Longrightarrow> seed_ok (App_step s ev)"
  by (cases ev) (auto simp: seed_ok_def triggerRobinHoodStrategy_def)

lemma seed_ok_foldl: "seed_ok s \<Longrightarrow> seed_ok (foldl App_step s evs)"
  by (induction evs arbitrary: s) (simp_all add: seed_ok_step)

lemma seed_ok_run: "seed_ok (App_run evs)"
  unfolding App_run_def by (rule seed_ok_foldl) (simp add: seed_ok_def App_init_def)

lemma robin_hood_prompt_nonempty: "robin_hood_prompt \<noteq> []"
  by (simp add: robin_hood_prompt_def js_def)

lemma mount_sends_seed:
  assumes "X \<noteq> []"
  shows "ChatbotView_mount (Some X)
           = \<lparr>prompt = [], isLoading = True, requests = [sendMessage X], console = [],
              messages = [\<lparr>role = user, text = X\<rparr>], awaiting = Some X\<rparr>"
  using assms by (simp add: ChatbotView_mount_def handleSend_def ChatbotView_init_def)

text \<open>
  C7. Whenever the Shell renders the Chat panel with a seed X, mounting the
  panel sends X with nothing typed: the message sequence is the single user
  message X, the input field is empty, the panel is loading and one
  \<^verbatim>\<open>sendMessage\<close> request carries X. When that request succeeds, exactly one
  model message, the reply, follows the user message.
\<close>

theorem seed_is_sent_on_mount:
  assumes "CurrentView (App_run evs) = Chatbot_view (Some X)"
  shows "messages (ChatbotView_mount (Some X)) = [\<lparr>role = user, text = X\<rparr>]
         \<and> prompt (ChatbotView_mount (Some X)) = []
         \<and> isLoading (ChatbotView_mount (Some X))
         \<and> requests (ChatbotView_mount (Some X)) = [sendMessage X]
         \<and> messages (chat_run [ReplySettled (Inr reply)] (ChatbotView_mount (Some X)))
             = [\<lparr>role = user, text = X\<rparr>, \<lparr>role = model, text = reply\<rparr>]
         \<and> \<not> isLoading (chat_run [ReplySettled (Inr reply)] (ChatbotView_mount (Some X)))"
proof -
  from assms have "chatbotInitialPrompt (App_run evs) = Some X"
    by (auto simp: CurrentView_def split: FeatureId.splits)
  with seed_ok_run [of evs] have "X = robin_hood_prompt"
    by (simp add: seed_ok_def)
  then have "X \<noteq> []" by (simp add: robin_hood_prompt_nonempty)
  then show ?thesis
    by (simp add: mount_sends_seed chat_run_def reply_settled_def)
qed

theorem seed_is_sent_on_mount_witness:
  "CurrentView (App_run [RobinHood]) = Chatbot_view (Some robin_hood_prompt)
   \<and> messages (ChatbotView_mount (Some robin_hood_prompt))
       = [\<lparr>role = user, text = robin_hood_prompt\<rparr>]
   \<and> messages (chat_run [ReplySettled (Inr (js ''Sell mugs.''))]
                  (ChatbotView_mount (Some robin_hood_prompt)))
       = [\<lparr>role = user, text = robin_hood_prompt\<rparr>,
          \<lparr>role = model, text = js ''Sell mugs.''\<rparr>]"
proof -
  have v: "CurrentView (App_run [RobinHood]) = Chatbot_view (Some robin_hood_prompt)"
    by (simp add: App_run_def App_init_def CurrentView_def triggerRobinHoodStrategy_def)
  show ?thesis
    using seed_is_sent_on_mount [OF v, of "js ''Sell mugs.''"] v by simp
qed

end
